theory Spec2Isabelle
  imports Complex_Main "HOL-Library.Multiset"
begin

section \<open>Data model of the bm25md package\<close>

text \<open>
  Conventions of the embedding.
  \<^item> Go's \<open>float64\<close> is read as \<open>real\<close> and \<open>math.Log\<close> as \<open>ln\<close>: the scores are the
    exact values of the formulas the code evaluates; rounding, infinities and NaN are
    outside the model.
  \<^item> Go's \<open>int\<close> counters (term counts, lengths, document counts) are \<open>nat\<close>: they count
    elements of slices held in memory and never reach the 64-bit limit. A document index
    and a document identifier, which a caller may set to a negative number, are \<open>int\<close>.
  \<^item> A Go map that the code ranges over (\<open>fieldWeights\<close>, \<open>fieldScorers\<close>) is an
    association list; the order of the list stands for the iteration order of the map.
    A Go map that is only read and written by key is a partial function; reading an
    absent key yields the zero value, as in Go.
  \<^item> The \<open>Tokenizer\<close> interface value is a total function from text to terms.
  \<^item> The pointer receivers become explicit state passing: \<open>addDocument\<close> and
    \<open>AddDocument\<close> return the updated structure; \<open>score\<close>, \<open>Score\<close> and \<open>Search\<close> only read.
\<close>

type_synonym Field = string

definition FieldH1 :: Field where "FieldH1 = ''h1''"
definition FieldH2 :: Field where "FieldH2 = ''h2''"
definition FieldH3 :: Field where "FieldH3 = ''h3''"
definition FieldH4 :: Field where "FieldH4 = ''h4''"
definition FieldH5 :: Field where "FieldH5 = ''h5''"
definition FieldH6 :: Field where "FieldH6 = ''h6''"
definition FieldBold :: Field where "FieldBold = ''bold''"
definition FieldItalic :: Field where "FieldItalic = ''italic''"
definition FieldCode :: Field where "FieldCode = ''code''"
definition FieldBody :: Field where "FieldBody = ''body''"

lemmas Field_defs = FieldH1_def FieldH2_def FieldH3_def FieldH4_def FieldH5_def FieldH6_def
  FieldBold_def FieldItalic_def FieldCode_def FieldBody_def

definition DefaultFieldWeights :: "(Field \<times> real) list" where
  "DefaultFieldWeights =
     [(FieldH1, 5), (FieldH2, 3), (FieldH3, 2), (FieldH4, 2), (FieldH5, 2), (FieldH6, 2),
      (FieldBold, 15 / 10), (FieldItalic, 12 / 10), (FieldCode, 8 / 10), (FieldBody, 1)]"

record Document =
  ID :: int
  Fields :: "Field \<rightharpoonup> string"
  Original :: string

record BM25Parameters =
  K1 :: real
  B :: real

definition DefaultBM25Parameters :: BM25Parameters where
  "DefaultBM25Parameters = \<lparr>K1 = 12 / 10, B = 75 / 100\<rparr>"

subsection \<open>The default tokenizer\<close>

text \<open>
  \<open>DefaultTokenizer.Tokenize\<close>: lower-case the text, split it at every maximal run of
  bytes outside \<open>[a-zA-Z0-9_-]\<close>, trim each piece and keep the pieces of at least three
  bytes. A string is a list of bytes; \<open>strings.ToLower\<close> is modelled on the ASCII letters.
\<close>

definition toLowerChar :: "char \<Rightarrow> char" where
  "toLowerChar c =
     (let n = (of_char c :: nat) in if 65 \<le> n \<and> n \<le> 90 then char_of (n + 32) else c)"

definition ToLower :: "string \<Rightarrow> string" where
  "ToLower s = map toLowerChar s"

definition isTokenChar :: "char \<Rightarrow> bool" where
  "isTokenChar c =
     (let n = (of_char c :: nat)
      in (97 \<le> n \<and> n \<le> 122) \<or> (65 \<le> n \<and> n \<le> 90) \<or> (48 \<le> n \<and> n \<le> 57)
         \<or> n = 95 \<or> n = 45)"

definition isSpace :: "char \<Rightarrow> bool" where
  "isSpace c = (let n = (of_char c :: nat) in n = 32 \<or> (9 \<le> n \<and> n \<le> 13))"

definition TrimSpace :: "string \<Rightarrow> string" where
  "TrimSpace s = rev (dropWhile isSpace (rev (dropWhile isSpace s)))"

text \<open>\<open>tokenRegex.Split(text, -1)\<close>: \<open>cur\<close> is the piece being read.\<close>

fun regexSplit :: "string \<Rightarrow> string \<Rightarrow> bool \<Rightarrow> string list" where
  "regexSplit [] cur inSep = [cur]"
| "regexSplit (c # cs) cur inSep =
     (if isTokenChar c then regexSplit cs (cur @ [c]) False
      else if inSep then regexSplit cs cur True
      else cur # regexSplit cs [] True)"

fun filterTokens :: "string list \<Rightarrow> string list" where
  "filterTokens [] = []"
| "filterTokens (token # tokens) =
     (let token' = TrimSpace token
      in if length token' \<ge> 3 then token' # filterTokens tokens else filterTokens tokens)"

definition DefaultTokenizer :: "string \<Rightarrow> string list" where
  "DefaultTokenizer text =
     (if text = [] then [] else filterTokens (regexSplit (ToLower text) [] False))"

subsection \<open>The scorer of one field\<close>

text \<open>
  The fields \<open>params\<close> of \<open>fieldBM25\<close> and of \<open>Corpus\<close> are named \<open>fparams\<close> and \<open>params\<close>.
\<close>

record fieldBM25 =
  field :: Field
  weight :: real
  fparams :: BM25Parameters
  termFrequencies :: "(string \<rightharpoonup> nat) list"
  docFrequencies :: "string \<rightharpoonup> nat"
  docLengths :: "nat list"
  avgDocLength :: real
  totalDocs :: nat

text \<open>Reading a \<open>map[string]int\<close>: an absent key reads as 0.\<close>

definition getCount :: "(string \<rightharpoonup> nat) \<Rightarrow> string \<Rightarrow> nat" where
  "getCount m k = (case m k of None \<Rightarrow> 0 | Some n \<Rightarrow> n)"

definition newFieldBM25 :: "Field \<Rightarrow> real \<Rightarrow> BM25Parameters \<Rightarrow> fieldBM25" where
  "newFieldBM25 f w p =
     \<lparr>field = f, weight = w, fparams = p, termFrequencies = [], docFrequencies = Map.empty,
      docLengths = [], avgDocLength = 0, totalDocs = 0\<rparr>"

text \<open>The loop \<open>tf[token]++\<close>.\<close>

fun countTokens :: "string list \<Rightarrow> (string \<rightharpoonup> nat) \<Rightarrow> (string \<rightharpoonup> nat)" where
  "countTokens [] tf = tf"
| "countTokens (token # tokens) tf = countTokens tokens (tf(token \<mapsto> getCount tf token + 1))"

text \<open>The loop over the tokens that increments the document frequency of each new token.\<close>

fun updateDocFrequencies ::
  "string list \<Rightarrow> (string \<rightharpoonup> nat) \<Rightarrow> (string \<Rightarrow> bool) \<Rightarrow> (string \<rightharpoonup> nat)" where
  "updateDocFrequencies [] df seen = df"
| "updateDocFrequencies (token # tokens) df seen =
     (if \<not> seen token
      then updateDocFrequencies tokens (df(token \<mapsto> getCount df token + 1)) (seen(token := True))
      else updateDocFrequencies tokens df seen)"

text \<open>The loop \<open>totalLength += length\<close>.\<close>

fun sumLengths :: "nat list \<Rightarrow> nat \<Rightarrow> nat" where
  "sumLengths [] totalLength = totalLength"
| "sumLengths (l # ls) totalLength = sumLengths ls (totalLength + l)"

definition addDocument :: "fieldBM25 \<Rightarrow> string list \<Rightarrow> fieldBM25" where
  "addDocument f tokens =
     (let tf = countTokens tokens Map.empty;
          tfs = termFrequencies f @ [tf];
          df = updateDocFrequencies tokens (docFrequencies f) (\<lambda>_. False);
          dls = docLengths f @ [length tokens];
          n = totalDocs f + 1;
          totalLength = sumLengths dls 0
      in f\<lparr>termFrequencies := tfs, docFrequencies := df, docLengths := dls,
            avgDocLength := (if n > 0 then real totalLength / real n else avgDocLength f),
            totalDocs := n\<rparr>)"

text \<open>The isolated score of one field, \<open>fieldBM25.score\<close>.\<close>

fun scoreTerms :: "fieldBM25 \<Rightarrow> nat \<Rightarrow> string list \<Rightarrow> real \<Rightarrow> real" where
  "scoreTerms f d [] sc = sc"
| "scoreTerms f d (term # terms) sc =
     (let tf = real (getCount (termFrequencies f ! d) term)
      in if tf = 0 then scoreTerms f d terms sc
         else let df = real (getCount (docFrequencies f) term)
              in if df = 0 then scoreTerms f d terms sc
                 else let idf0 = ln ((real (totalDocs f) - df + 1 / 2) / (df + 1 / 2));
                          idf = (if idf0 < 0 then 0 else idf0);
                          docLen = real (docLengths f ! d);
                          k1 = K1 (fparams f);
                          b = B (fparams f);
                          normTF = tf * (k1 + 1) / (tf + k1 * (1 - b + b * docLen / avgDocLength f))
                      in scoreTerms f d terms (sc + idf * normTF))"

definition score :: "fieldBM25 \<Rightarrow> string list \<Rightarrow> int \<Rightarrow> real" where
  "score f queryTerms docIndex =
     (if docIndex < 0 \<or> docIndex \<ge> int (length (termFrequencies f)) then 0
      else scoreTerms f (nat docIndex) queryTerms 0 * weight f)"

subsection \<open>The corpus\<close>

record Corpus =
  documents :: "Document list"
  fieldScorers :: "(Field \<times> fieldBM25) list"
  fieldWeights :: "(Field \<times> real) list"
  params :: BM25Parameters
  tokenizer :: "string \<Rightarrow> string list"
  fieldParams :: "(Field \<rightharpoonup> BM25Parameters) option"

text \<open>
  The functional options. A nil map argument is \<open>None\<close>; \<open>WithFieldWeights\<close> and
  \<open>WithFieldParams\<close> ignore it.
\<close>

datatype CorpusOption =
    WithTokenizer "string \<Rightarrow> string list"
  | WithFieldWeights "(Field \<times> real) list option"
  | WithBM25Params BM25Parameters
  | WithFieldParams "(Field \<rightharpoonup> BM25Parameters) option"

fun applyOption :: "CorpusOption \<Rightarrow> Corpus \<Rightarrow> Corpus" where
  "applyOption (WithTokenizer t) c = c\<lparr>tokenizer := t\<rparr>"
| "applyOption (WithFieldWeights None) c = c"
| "applyOption (WithFieldWeights (Some ws)) c = c\<lparr>fieldWeights := ws\<rparr>"
| "applyOption (WithBM25Params p) c = c\<lparr>params := p\<rparr>"
| "applyOption (WithFieldParams None) c = c"
| "applyOption (WithFieldParams (Some fp)) c = c\<lparr>fieldParams := Some fp\<rparr>"

fun applyOptions :: "CorpusOption list \<Rightarrow> Corpus \<Rightarrow> Corpus" where
  "applyOptions [] c = c"
| "applyOptions (opt # opts) c = applyOptions opts (applyOption opt c)"

definition scorerParams :: "Corpus \<Rightarrow> Field \<Rightarrow> BM25Parameters" where
  "scorerParams c f =
     (case fieldParams c of
        None \<Rightarrow> params c
      | Some fp \<Rightarrow> (case fp f of None \<Rightarrow> params c | Some fieldParam \<Rightarrow> fieldParam))"

definition buildFieldScorers :: "Corpus \<Rightarrow> Corpus" where
  "buildFieldScorers c =
     c\<lparr>fieldScorers := map (\<lambda>(f, w). (f, newFieldBM25 f w (scorerParams c f))) (fieldWeights c)\<rparr>"

definition NewCorpus :: "CorpusOption list \<Rightarrow> Corpus" where
  "NewCorpus opts =
     buildFieldScorers
       (applyOptions opts
          \<lparr>documents = [], fieldScorers = [], fieldWeights = DefaultFieldWeights,
           params = DefaultBM25Parameters, tokenizer = DefaultTokenizer, fieldParams = None\<rparr>)"

text \<open>\<open>doc.Fields[field]\<close>: an absent field reads as the empty string.\<close>

definition fieldContent :: "Document \<Rightarrow> Field \<Rightarrow> string" where
  "fieldContent doc f = (case Fields doc f of None \<Rightarrow> [] | Some s \<Rightarrow> s)"

text \<open>The loop of \<open>AddDocument\<close> over the field scorers.\<close>

fun indexFields :: "Corpus \<Rightarrow> Document \<Rightarrow> (Field \<times> fieldBM25) list \<Rightarrow> (Field \<times> fieldBM25) list" where
  "indexFields c doc [] = []"
| "indexFields c doc ((f, scorer) # rest) =
     (f, addDocument scorer (tokenizer c (fieldContent doc f))) # indexFields c doc rest"

definition AddDocument :: "Corpus \<Rightarrow> Document \<Rightarrow> Corpus" where
  "AddDocument c doc =
     (let doc' = doc\<lparr>ID := int (length (documents c))\<rparr>
      in c\<lparr>documents := documents c @ [doc'],
            fieldScorers := indexFields c doc' (fieldScorers c)\<rparr>)"

fun AddDocuments :: "Corpus \<Rightarrow> Document list \<Rightarrow> Corpus" where
  "AddDocuments c [] = c"
| "AddDocuments c (doc # docs) = AddDocuments (AddDocument c doc) docs"

subsection \<open>The combined BM25F score\<close>

text \<open>The inner loop over the scorers that sets \<open>termFound\<close> and breaks.\<close>

fun termFound :: "(Field \<times> fieldBM25) list \<Rightarrow> nat \<Rightarrow> string \<Rightarrow> bool" where
  "termFound [] i term = False"
| "termFound ((f, scorer) # rest) i term =
     (if i < length (termFrequencies scorer)
      then (if getCount (termFrequencies scorer ! i) term > 0 then True
            else termFound rest i term)
      else termFound rest i term)"

text \<open>The loop \<open>for i := 0; i < len(c.documents); i++\<close> that counts \<open>docFreq\<close>.\<close>

fun countDocFreq :: "Corpus \<Rightarrow> string \<Rightarrow> nat list \<Rightarrow> nat \<Rightarrow> nat" where
  "countDocFreq c term [] docFreq = docFreq"
| "countDocFreq c term (i # is) docFreq =
     (if termFound (fieldScorers c) i term then countDocFreq c term is (docFreq + 1)
      else countDocFreq c term is docFreq)"

text \<open>\<open>c.fieldWeights[field]\<close>: an absent field reads as 0.\<close>

definition weightOf :: "(Field \<times> real) list \<Rightarrow> Field \<Rightarrow> real" where
  "weightOf ws f = (case map_of ws f of None \<Rightarrow> 0 | Some w \<Rightarrow> w)"

text \<open>The loop over the scorers that accumulates \<open>weightedTF\<close>.\<close>

fun sumWeightedTF :: "Corpus \<Rightarrow> nat \<Rightarrow> string \<Rightarrow> (Field \<times> fieldBM25) list \<Rightarrow> real \<Rightarrow> real" where
  "sumWeightedTF c d term [] weightedTF = weightedTF"
| "sumWeightedTF c d term ((f, scorer) # rest) weightedTF =
     (if d < length (termFrequencies scorer)
      then (let tf = real (getCount (termFrequencies scorer ! d) term)
            in if tf > 0 then sumWeightedTF c d term rest (weightedTF + weightOf (fieldWeights c) f * tf)
               else sumWeightedTF c d term rest weightedTF)
      else sumWeightedTF c d term rest weightedTF)"

text \<open>The loop over the query terms.\<close>

fun scoreQueryTerms :: "Corpus \<Rightarrow> nat \<Rightarrow> string list \<Rightarrow> real \<Rightarrow> real" where
  "scoreQueryTerms c d [] totalScore = totalScore"
| "scoreQueryTerms c d (term # terms) totalScore =
     (let totalDocs = length (documents c);
          docFreq = countDocFreq c term [0 ..< length (documents c)] 0
      in if docFreq = 0 then scoreQueryTerms c d terms totalScore
         else let idf0 = ln ((real totalDocs - real docFreq + 1 / 2) / (real docFreq + 1 / 2));
                  idf = (if idf0 < 0 then 0 else idf0);
                  weightedTF = sumWeightedTF c d term (fieldScorers c) 0
              in if weightedTF > 0
                 then (let k1 = 12 / 10;
                           normTF = weightedTF * (k1 + 1) / (weightedTF + k1);
                           termScore = idf * normTF
                       in scoreQueryTerms c d terms (totalScore + termScore))
                 else scoreQueryTerms c d terms totalScore)"

definition scoreWithTokens :: "Corpus \<Rightarrow> string list \<Rightarrow> int \<Rightarrow> real" where
  "scoreWithTokens c queryTerms docIndex =
     (if docIndex < 0 \<or> docIndex \<ge> int (length (documents c)) then 0
      else if length queryTerms = 0 then 0
      else scoreQueryTerms c (nat docIndex) queryTerms 0)"

definition Score :: "Corpus \<Rightarrow> string \<Rightarrow> int \<Rightarrow> real" where
  "Score c query docIndex = scoreWithTokens c (tokenizer c query) docIndex"

subsection \<open>Search\<close>

text \<open>The fields of \<open>SearchResult\<close> carry the prefix \<open>r\<close>.\<close>

record SearchResult =
  rDocument :: Document
  rScore :: real
  rIndex :: int

text \<open>The comparison given to \<open>sort.Slice\<close>: a higher score comes first.\<close>

definition byScore :: "SearchResult \<Rightarrow> SearchResult \<Rightarrow> bool" where
  "byScore a b = (rScore a > rScore b)"

text \<open>
  \<open>sort.Slice\<close> belongs to the Go library and is a parameter \<open>srt\<close> of the search
  functions. Its documented contract, for the comparison used here: the result is a
  rearrangement of the slice in which no element is followed by one that must come before
  it; equal elements may come in any order.
\<close>

definition sortContract :: "(SearchResult list \<Rightarrow> SearchResult list) \<Rightarrow> bool" where
  "sortContract srt =
     (\<forall>xs. mset (srt xs) = mset xs \<and> sorted_wrt (\<lambda>a b. \<not> byScore b a) (srt xs))"

text \<open>
  The insertion sort the Go library runs on a slice of at most 12 elements: each element
  moves left while it must come before its left neighbour.
\<close>

fun insertLeft :: "SearchResult list \<Rightarrow> SearchResult \<Rightarrow> SearchResult list" where
  "insertLeft [] x = [x]"
| "insertLeft (y # ys) x = (if byScore x y then y # insertLeft ys x else x # y # ys)"

text \<open>\<open>pre\<close> is the sorted prefix, last element first.\<close>

fun insertionSort :: "SearchResult list \<Rightarrow> SearchResult list \<Rightarrow> SearchResult list" where
  "insertionSort pre [] = rev pre"
| "insertionSort pre (x # xs) = insertionSort (insertLeft pre x) xs"

text \<open>The scoring loop shared by both strategies, over document indices in a given order.\<close>

fun scoreDocs :: "Corpus \<Rightarrow> string list \<Rightarrow> nat list \<Rightarrow> SearchResult list" where
  "scoreDocs c queryTerms [] = []"
| "scoreDocs c queryTerms (i # is) =
     (let sc = scoreWithTokens c queryTerms (int i)
      in if sc > 0
         then \<lparr>rDocument = documents c ! i, rScore = sc, rIndex = int i\<rparr> # scoreDocs c queryTerms is
         else scoreDocs c queryTerms is)"

definition applyLimit :: "int \<Rightarrow> SearchResult list \<Rightarrow> SearchResult list" where
  "applyLimit limit results =
     (if limit > 0 \<and> int (length results) > limit then take (nat limit) results else results)"

definition searchSequential ::
  "(SearchResult list \<Rightarrow> SearchResult list) \<Rightarrow> Corpus \<Rightarrow> string list \<Rightarrow> int \<Rightarrow> SearchResult list" where
  "searchSequential srt c queryTerms limit =
     applyLimit limit (srt (scoreDocs c queryTerms [0 ..< length (documents c)]))"

text \<open>
  \<open>searchParallel\<close>: every document index is sent once on \<open>docChan\<close>, a worker scores it and
  sends a result on \<open>resultsChan\<close> when the score is positive, and the results are
  collected in the order in which they arrive, after which they are sorted and truncated
  once. Both channels have room for every document, so no send blocks. The order of
  arrival depends on the scheduling of the workers; the parameter \<open>arrival\<close> is the order in
  which the document indices are completed, a rearrangement of \<open>0 ..< len(c.documents)\<close>.
\<close>

definition validArrival :: "Corpus \<Rightarrow> nat list \<Rightarrow> bool" where
  "validArrival c arrival = (mset arrival = mset [0 ..< length (documents c)])"

definition searchParallel ::
  "(SearchResult list \<Rightarrow> SearchResult list) \<Rightarrow> nat list \<Rightarrow> Corpus \<Rightarrow> string list \<Rightarrow> int
     \<Rightarrow> SearchResult list" where
  "searchParallel srt arrival c queryTerms limit =
     applyLimit limit (srt (scoreDocs c queryTerms arrival))"

definition Search ::
  "(SearchResult list \<Rightarrow> SearchResult list) \<Rightarrow> nat list \<Rightarrow> Corpus \<Rightarrow> string \<Rightarrow> int
     \<Rightarrow> SearchResult list" where
  "Search srt arrival c query limit =
     (let queryTerms = tokenizer c query
      in if length queryTerms = 0 then []
         else if length (documents c) < 100 then searchSequential srt c queryTerms limit
         else searchParallel srt arrival c queryTerms limit)"

subsection \<open>The markdown field parser\<close>

text \<open>
  The tree that the markdown library hands to \<open>ParseDocument\<close>, as far as the parser reads
  it: the kind of a node with the data of that kind, and the children in order. A text
  leaf holds the bytes of its segment of the source, a fenced code block the bytes of its
  lines. Every other kind of node (paragraph, list, link, image, block quote, thematic
  break, document) is \<open>OtherNode\<close>.
\<close>

datatype NodeKind =
    Heading int
  | CodeSpan
  | FencedCodeBlock "string list"
  | CodeBlock
  | TextNode string
  | StringNode string
  | Emphasis int
  | OtherNode

datatype Node = Node NodeKind "Node list"

text \<open>
  A node as the walker receives it: the node, the kinds of its ancestors from the parent
  upwards (\<open>Parent()\<close>), and whether it has a next sibling (\<open>NextSibling() != nil\<close>).
\<close>

record Cursor =
  cNode :: Node
  cAncestors :: "NodeKind list"
  cHasNext :: bool

datatype WalkStatus = WalkStop | WalkSkipChildren | WalkContinue

datatype WalkError = WalkError string

type_synonym FieldTexts = "(Field \<times> string list) list"

type_synonym Walker = "Cursor \<Rightarrow> bool \<Rightarrow> FieldTexts \<Rightarrow> (WalkStatus \<times> WalkError option) \<times> FieldTexts"

text \<open>\<open>strings.Join\<close>, \<open>strings.Split\<close> at one byte, and \<open>strings.Contains\<close> of one byte.\<close>

fun Join :: "string list \<Rightarrow> string \<Rightarrow> string" where
  "Join [] sep = []"
| "Join [x] sep = x"
| "Join (x # y # ys) sep = x @ sep @ Join (y # ys) sep"

fun SplitAt :: "char \<Rightarrow> string \<Rightarrow> string \<Rightarrow> string list" where
  "SplitAt sep [] cur = [cur]"
| "SplitAt sep (c # cs) cur = (if c = sep then cur # SplitAt sep cs [] else SplitAt sep cs (cur @ [c]))"

definition ContainsChar :: "string \<Rightarrow> char \<Rightarrow> bool" where
  "ContainsChar s c = (c \<in> set s)"

text \<open>\<open>fieldTexts[field] = append(fieldTexts[field], text)\<close> and \<open>fieldTexts[field] = make([]string, 0)\<close>.\<close>

definition appendText :: "Field \<Rightarrow> string \<Rightarrow> FieldTexts \<Rightarrow> FieldTexts" where
  "appendText f text ft =
     (if f \<in> fst ` set ft then map (\<lambda>(g, texts). if g = f then (g, texts @ [text]) else (g, texts)) ft
      else ft @ [(f, [text])])"

definition setTexts :: "Field \<Rightarrow> string list \<Rightarrow> FieldTexts \<Rightarrow> FieldTexts" where
  "setTexts f texts ft =
     (if f \<in> fst ` set ft then map (\<lambda>(g, old). if g = f then (g, texts) else (g, old)) ft
      else ft @ [(f, texts)])"

definition getHeaderField :: "int \<Rightarrow> Field" where
  "getHeaderField level =
     (if level = 1 then FieldH1 else if level = 2 then FieldH2 else if level = 3 then FieldH3
      else if level = 4 then FieldH4 else if level = 5 then FieldH5 else if level = 6 then FieldH6
      else FieldH6)"

text \<open>
  \<open>extractTextRecursive\<close> writes to a buffer; the model returns what it writes. The second
  argument says whether the node has a next sibling.
\<close>

fun extractTextRecursive :: "Node \<Rightarrow> bool \<Rightarrow> string"
  and extractTextSiblings :: "Node list \<Rightarrow> string" where
  "extractTextRecursive (Node k children) hasNext =
     (case k of
        TextNode seg \<Rightarrow> seg
      | StringNode v \<Rightarrow> v
      | _ \<Rightarrow> extractTextSiblings children)
     @ (if hasNext then '' '' else [])"
| "extractTextSiblings [] = []"
| "extractTextSiblings (child # rest) =
     extractTextRecursive child (rest \<noteq> []) @ extractTextSiblings rest"

fun extractTextFromChildren :: "Node \<Rightarrow> string" where
  "extractTextFromChildren (Node k children) = TrimSpace (extractTextSiblings children)"

fun nodeKind :: "Node \<Rightarrow> NodeKind" where
  "nodeKind (Node k children) = k"

definition extractCodeBlockText :: "Cursor \<Rightarrow> string" where
  "extractCodeBlockText cur =
     (let buf = (case nodeKind (cNode cur) of
                   FencedCodeBlock codeLines \<Rightarrow> concat codeLines
                 | _ \<Rightarrow> extractTextRecursive (cNode cur) (cHasNext cur));
          result = TrimSpace buf;
          result' = (case SplitAt (CHR 10) result [] of
                       [] \<Rightarrow> result
                     | l0 # rest \<Rightarrow>
                         (let firstLine = TrimSpace l0
                          in if length firstLine < 12 \<and> \<not> ContainsChar firstLine (CHR '' '')
                                \<and> length (l0 # rest) > 1
                             then Join rest [CHR 10] else result))
      in TrimSpace result')"

fun isSpecialKind :: "NodeKind \<Rightarrow> bool" where
  "isSpecialKind (Heading level) = True"
| "isSpecialKind CodeSpan = True"
| "isSpecialKind (FencedCodeBlock codeLines) = True"
| "isSpecialKind CodeBlock = True"
| "isSpecialKind (Emphasis level) = True"
| "isSpecialKind k = False"

fun isInsideSpecialElement :: "NodeKind list \<Rightarrow> bool" where
  "isInsideSpecialElement [] = False"
| "isInsideSpecialElement (parent # ups) = (if isSpecialKind parent then True else isInsideSpecialElement ups)"

text \<open>The function given to \<open>ast.Walk\<close>. It never returns an error.\<close>

definition walker :: Walker where
  "walker cur entering ft =
     (if \<not> entering then ((WalkContinue, None), ft)
      else case nodeKind (cNode cur) of
        Heading level \<Rightarrow>
          (let text = extractTextFromChildren (cNode cur)
           in ((WalkSkipChildren, None),
               if text \<noteq> [] then appendText (getHeaderField level) text ft else ft))
      | CodeSpan \<Rightarrow>
          (let text = extractTextFromChildren (cNode cur)
           in ((WalkSkipChildren, None), if text \<noteq> [] then appendText FieldCode text ft else ft))
      | FencedCodeBlock codeLines \<Rightarrow>
          (let text = extractCodeBlockText cur
           in ((WalkSkipChildren, None), if text \<noteq> [] then appendText FieldCode text ft else ft))
      | CodeBlock \<Rightarrow>
          (let text = extractCodeBlockText cur
           in ((WalkSkipChildren, None), if text \<noteq> [] then appendText FieldCode text ft else ft))
      | TextNode seg \<Rightarrow>
          ((WalkContinue, None),
           if \<not> isInsideSpecialElement (cAncestors cur)
           then (let text = TrimSpace seg in if text \<noteq> [] then appendText FieldBody text ft else ft)
           else ft)
      | Emphasis level \<Rightarrow>
          (let text = extractTextFromChildren (cNode cur)
           in ((WalkSkipChildren, None),
               if text \<noteq> []
               then (if level = 2 then appendText FieldBold text ft
                     else if level = 1 then appendText FieldItalic text ft
                     else ft)
               else ft))
      | _ \<Rightarrow> ((WalkContinue, None), ft))"

text \<open>
  \<open>ast.Walk\<close> of the markdown library: depth first, the children in order; the walker is
  called on entering and on leaving a node; \<open>WalkSkipChildren\<close> skips the children of the
  node, \<open>WalkStop\<close> or an error ends the walk.
\<close>

fun walkHelper :: "Walker \<Rightarrow> NodeKind list \<Rightarrow> Node \<Rightarrow> bool \<Rightarrow> FieldTexts
                     \<Rightarrow> (WalkStatus \<times> WalkError option) \<times> FieldTexts"
  and walkChildren :: "Walker \<Rightarrow> NodeKind list \<Rightarrow> Node list \<Rightarrow> FieldTexts
                     \<Rightarrow> (WalkStatus \<times> WalkError option) \<times> FieldTexts" where
  "walkHelper w ups (Node k children) hasNext ft =
     (let cur = \<lparr>cNode = Node k children, cAncestors = ups, cHasNext = hasNext\<rparr>;
          r1 = w cur True ft
      in if snd (fst r1) \<noteq> None \<or> fst (fst r1) = WalkStop then r1
         else let r2 = (if fst (fst r1) \<noteq> WalkSkipChildren then walkChildren w (k # ups) children (snd r1)
                        else ((WalkContinue, None), snd r1))
              in if snd (fst r2) \<noteq> None \<or> fst (fst r2) = WalkStop then ((WalkStop, snd (fst r2)), snd r2)
                 else let r3 = w cur False (snd r2)
                      in if snd (fst r3) \<noteq> None \<or> fst (fst r3) = WalkStop
                         then ((WalkStop, snd (fst r3)), snd r3)
                         else ((WalkContinue, None), snd r3))"
| "walkChildren w ups [] ft = ((WalkContinue, None), ft)"
| "walkChildren w ups (child # rest) ft =
     (let r = walkHelper w ups child (rest \<noteq> []) ft
      in if snd (fst r) \<noteq> None \<or> fst (fst r) = WalkStop then ((WalkStop, snd (fst r)), snd r)
         else walkChildren w ups rest (snd r))"

definition astWalk :: "Node \<Rightarrow> Walker \<Rightarrow> FieldTexts \<Rightarrow> WalkError option \<times> FieldTexts" where
  "astWalk n w ft = (let r = walkHelper w [] n False ft in (snd (fst r), snd r))"

text \<open>The three loops of \<open>ParseDocument\<close> over maps; the map \<open>fields\<close> of the source is \<open>fieldMap\<close>.\<close>

fun initFields :: "(Field \<times> real) list \<Rightarrow> (Field \<rightharpoonup> string) \<Rightarrow> (Field \<rightharpoonup> string)" where
  "initFields [] fieldMap = fieldMap"
| "initFields ((f, w) # rest) fieldMap = initFields rest (fieldMap(f \<mapsto> []))"

fun initFieldTexts :: "(Field \<times> real) list \<Rightarrow> FieldTexts \<Rightarrow> FieldTexts" where
  "initFieldTexts [] ft = ft"
| "initFieldTexts ((f, w) # rest) ft = initFieldTexts rest (setTexts f [] ft)"

fun joinFieldTexts :: "FieldTexts \<Rightarrow> (Field \<rightharpoonup> string) \<Rightarrow> (Field \<rightharpoonup> string)" where
  "joinFieldTexts [] fieldMap = fieldMap"
| "joinFieldTexts ((f, texts) # rest) fieldMap =
     (if length texts > 0 then joinFieldTexts rest (fieldMap(f \<mapsto> Join texts '' ''))
      else joinFieldTexts rest fieldMap)"

text \<open>
  \<open>ParseDocument\<close>. The parser and the tree walk of the markdown library are the
  parameters \<open>parse\<close> and \<open>walk\<close>.
\<close>

definition ParseDocumentWith ::
  "(string \<Rightarrow> Node) \<Rightarrow> (Node \<Rightarrow> Walker \<Rightarrow> FieldTexts \<Rightarrow> WalkError option \<times> FieldTexts)
     \<Rightarrow> string \<Rightarrow> (Field \<rightharpoonup> string)" where
  "ParseDocumentWith parse walk content =
     (let fieldMap = initFields DefaultFieldWeights Map.empty;
          doc = parse content;
          fieldTexts = initFieldTexts DefaultFieldWeights [];
          r = walk doc walker fieldTexts
      in case fst r of
           Some err \<Rightarrow> fieldMap(FieldBody \<mapsto> content)
         | None \<Rightarrow> joinFieldTexts (snd r) fieldMap)"

definition ParseDocument :: "(string \<Rightarrow> Node) \<Rightarrow> string \<Rightarrow> (Field \<rightharpoonup> string)" where
  "ParseDocument parse content = ParseDocumentWith parse astWalk content"

text \<open>\<open>ParseDocuments\<close>: the loop over the contents, with the position as identifier.\<close>

fun parseEach :: "(string \<Rightarrow> Node) \<Rightarrow> nat \<Rightarrow> string list \<Rightarrow> Document list" where
  "parseEach parse i [] = []"
| "parseEach parse i (content # rest) =
     \<lparr>ID = int i, Fields = ParseDocument parse content, Original = content\<rparr>
       # parseEach parse (Suc i) rest"

definition ParseDocuments :: "(string \<Rightarrow> Node) \<Rightarrow> string list \<Rightarrow> Document list" where
  "ParseDocuments parse contents = parseEach parse 0 contents"

section \<open>Notions of the specification\<close>

text \<open>
  The contribution of one query term to the combined score, as one turn of the loop of
  \<open>scoreWithTokens\<close> computes it.
\<close>

definition termContribution :: "Corpus \<Rightarrow> nat \<Rightarrow> string \<Rightarrow> real" where
  "termContribution c d term =
     (let docFreq = countDocFreq c term [0 ..< length (documents c)] 0
      in if docFreq = 0 then 0
         else let idf0 = ln ((real (length (documents c)) - real docFreq + 1 / 2) / (real docFreq + 1 / 2));
                  idf = (if idf0 < 0 then 0 else idf0);
                  weightedTF = sumWeightedTF c d term (fieldScorers c) 0
              in if weightedTF > 0 then idf * (weightedTF * (12 / 10 + 1) / (weightedTF + 12 / 10))
                 else 0)"

text \<open>
  The invariants of the data model: every list of a field scorer is as long as the document
  list, the average length is the mean of the recorded lengths, the scorers and the weights
  have the same fields, and the identifier of a document is its position.
\<close>

definition scorerInv :: "nat \<Rightarrow> fieldBM25 \<Rightarrow> bool" where
  "scorerInv n s =
     (length (termFrequencies s) = n \<and> length (docLengths s) = n \<and> totalDocs s = n \<and>
      avgDocLength s = (if n = 0 then 0 else real (sum_list (docLengths s)) / real n))"

definition corpusInv :: "Corpus \<Rightarrow> bool" where
  "corpusInv c =
     (map fst (fieldScorers c) = map fst (fieldWeights c) \<and>
      list_all (\<lambda>(f, s). scorerInv (length (documents c)) s) (fieldScorers c) \<and>
      map ID (documents c) = map int [0 ..< length (documents c)])"

text \<open>
  The BM25F combination in the words of the specification: the combined document
  frequency of a term counts the documents in which some field has a nonzero raw term
  frequency, the weighted term frequency sums weight times raw term frequency over the
  fields, and the saturation uses the fixed constant \<open>K = 1.2\<close>.
\<close>

definition rawTF :: "fieldBM25 \<Rightarrow> nat \<Rightarrow> string \<Rightarrow> nat" where
  "rawTF s i term = getCount (termFrequencies s ! i) term"

definition combinedDocFreq :: "Corpus \<Rightarrow> string \<Rightarrow> nat" where
  "combinedDocFreq c term =
     length (filter (\<lambda>i. list_ex (\<lambda>(f, s). rawTF s i term \<noteq> 0) (fieldScorers c))
                    [0 ..< length (documents c)])"

definition weightedTermFreq :: "Corpus \<Rightarrow> nat \<Rightarrow> string \<Rightarrow> real" where
  "weightedTermFreq c d term =
     (\<Sum>(f, s) \<leftarrow> fieldScorers c. weightOf (fieldWeights c) f * real (rawTF s d term))"

definition clampedIdf :: "nat \<Rightarrow> nat \<Rightarrow> real" where
  "clampedIdf n df = max 0 (ln ((real n - real df + 1 / 2) / (real df + 1 / 2)))"

definition combinationK :: real where
  "combinationK = 12 / 10"

definition termScoreBM25F :: "Corpus \<Rightarrow> nat \<Rightarrow> string \<Rightarrow> real" where
  "termScoreBM25F c d term =
     (let w = weightedTermFreq c d term
      in if w > 0
         then clampedIdf (length (documents c)) (combinedDocFreq c term)
              * (w * (combinationK + 1) / (w + combinationK))
         else 0)"

definition lengthsInv :: "Corpus \<Rightarrow> bool" where
  "lengthsInv c = list_all (\<lambda>(f, s). length (termFrequencies s) = length (documents c)) (fieldScorers c)"

text \<open>The result record of one document, and lists in descending order of score.\<close>

definition mkResult :: "Corpus \<Rightarrow> string list \<Rightarrow> nat \<Rightarrow> SearchResult" where
  "mkResult c queryTerms i =
     \<lparr>rDocument = documents c ! i, rScore = scoreWithTokens c queryTerms (int i), rIndex = int i\<rparr>"

definition descending :: "SearchResult list \<Rightarrow> bool" where
  "descending rs = sorted_wrt (\<lambda>a b. rScore a \<ge> rScore b) rs"

text \<open>
  A corpus that differs from \<open>c\<close> in the BM25 parameters only: the global ones, the
  per-field overrides and the parameters held by each field scorer.
\<close>

definition overrideParams ::
  "BM25Parameters \<Rightarrow> (Field \<rightharpoonup> BM25Parameters) option \<Rightarrow> (Field \<Rightarrow> BM25Parameters) \<Rightarrow> Corpus \<Rightarrow> Corpus" where
  "overrideParams p fp q c =
     c\<lparr>params := p, fieldParams := fp,
       fieldScorers := map (\<lambda>(f, s). (f, s\<lparr>fparams := q f\<rparr>)) (fieldScorers c)\<rparr>"





subsection \<open>Example corpora\<close>

text \<open>
  The three lines of the scenario of the specification, each the body of one document,
  indexed with the default configuration. The documents arrive with an identifier the
  caller chose.
\<close>

definition bodyDoc :: "string \<Rightarrow> Document" where
  "bodyDoc body = \<lparr>ID = 42, Fields = [FieldBody \<mapsto> body], Original = body\<rparr>"

definition poemDocs :: "Document list" where
  "poemDocs =
     [bodyDoc ''The stars go waltzing out in blue and red'',
      bodyDoc ''I dreamed that you bewitched me into bed'',
      bodyDoc ''I should have loved a thunderbird instead'']"

definition poemCorpus :: Corpus where
  "poemCorpus = AddDocuments (NewCorpus []) poemDocs"



text \<open>
  Five documents of which the first and the third hold the query term "waltzing" once:
  two documents with the same positive score.
\<close>

definition tieDocs :: "Document list" where
  "tieDocs =
     [bodyDoc ''stars go waltzing out'',
      bodyDoc ''dreamed that you bewitched'',
      bodyDoc ''waltzing matilda'',
      bodyDoc ''loved a thunderbird instead'',
      bodyDoc ''arbitrary blackness gallops'']"

definition tieCorpus :: Corpus where
  "tieCorpus = AddDocuments (NewCorpus []) tieDocs"

text \<open>
  Three documents of which the first holds "waltzing" once in its first-level title and
  twice in its body.
\<close>

definition headedDoc :: "string \<Rightarrow> string \<Rightarrow> Document" where
  "headedDoc title body =
     \<lparr>ID = 0, Fields = [FieldH1 \<mapsto> title, FieldBody \<mapsto> body], Original = ''# '' @ title @ ''\<newline>'' @ body\<rparr>"

definition headedDocs :: "Document list" where
  "headedDocs =
     [headedDoc ''Waltzing stars'' ''the stars go waltzing and waltzing'',
      bodyDoc ''dreamed that you bewitched'',
      bodyDoc ''loved a thunderbird instead'']"

definition headedCorpus :: Corpus where
  "headedCorpus = AddDocuments (NewCorpus []) headedDocs"



text \<open>
  The text of the scenario of the specification with the tree that the markdown library
  builds for it (a heading and a paragraph under the document node), and a tree walk that
  reports an error.
\<close>

definition scenarioText :: string where
  "scenarioText = ''# Main Title'' @ [CHR 10] @ ''This is **bold** and *italic* text.'' @ [CHR 10]
     @ ''Here is some `code` and regular content.''"

definition scenarioTree :: Node where
  "scenarioTree =
     Node OtherNode
       [Node (Heading 1) [Node (TextNode ''Main Title'') []],
        Node OtherNode
          [Node (TextNode ''This is '') [],
           Node (Emphasis 2) [Node (TextNode ''bold'') []],
           Node (TextNode '' and '') [],
           Node (Emphasis 1) [Node (TextNode ''italic'') []],
           Node (TextNode '' text.'') [],
           Node (TextNode ''Here is some '') [],
           Node CodeSpan [Node (TextNode ''code'') []],
           Node (TextNode '' and regular content.'') []]]"

definition failingWalk :: "Node \<Rightarrow> Walker \<Rightarrow> FieldTexts \<Rightarrow> WalkError option \<times> FieldTexts" where
  "failingWalk n w ft = (Some (WalkError ''walk failed''), ft)"

section \<open>Properties of the scoring loops\<close>

lemma sumLengths_eq: "sumLengths ls acc = acc + sum_list ls"
  by (induction ls arbitrary: acc) auto

lemma scoreQueryTerms_step:
  "scoreQueryTerms c d (t # ts) acc = scoreQueryTerms c d ts (acc + termContribution c d t)"
  by (simp add: Let_def termContribution_def)

lemma scoreQueryTerms_sum:
  "scoreQueryTerms c d ts acc = acc + sum_list (map (termContribution c d) ts)"
proof (induction ts arbitrary: acc)
  case Nil
  show ?case by simp
next
  case (Cons t ts)
  have "scoreQueryTerms c d (t # ts) acc = scoreQueryTerms c d ts (acc + termContribution c d t)"
    by (rule scoreQueryTerms_step)
  also have "\<dots> = acc + termContribution c d t + sum_list (map (termContribution c d) ts)"
    by (rule Cons.IH)
  finally show ?case by simp
qed





section \<open>Invariants of indexing\<close>

lemma scorerInv_new: "scorerInv 0 (newFieldBM25 f w p)"
  by (simp add: scorerInv_def newFieldBM25_def)

lemma scorerInv_addDocument: "scorerInv n s \<Longrightarrow> scorerInv (Suc n) (addDocument s tokens)"
  by (simp add: scorerInv_def addDocument_def Let_def sumLengths_eq)

lemma fst_indexFields: "map fst (indexFields c doc scs) = map fst scs"
  by (induction c doc scs rule: indexFields.induct) auto

lemma inv_indexFields:
  "list_all (\<lambda>(f, s). scorerInv n s) scs \<Longrightarrow>
   list_all (\<lambda>(f, s). scorerInv (Suc n) s) (indexFields c doc scs)"
  by (induction c doc scs rule: indexFields.induct) (auto simp: scorerInv_addDocument)

lemma documents_applyOption: "documents (applyOption opt c) = documents c"
  by (induction opt c rule: applyOption.induct) auto

lemma documents_applyOptions: "documents (applyOptions opts c) = documents c"
  by (induction opts arbitrary: c) (auto simp: documents_applyOption)

lemma documents_NewCorpus: "documents (NewCorpus opts) = []"
  by (simp add: NewCorpus_def buildFieldScorers_def documents_applyOptions)

lemma corpusInv_NewCorpus: "corpusInv (NewCorpus opts)"
  by (simp add: corpusInv_def NewCorpus_def buildFieldScorers_def list_all_iff split_def
      scorerInv_new comp_def documents_applyOptions)

lemma corpusInv_AddDocument: "corpusInv c \<Longrightarrow> corpusInv (AddDocument c doc)"
  by (simp add: corpusInv_def AddDocument_def Let_def fst_indexFields inv_indexFields)

lemma corpusInv_AddDocuments: "corpusInv c \<Longrightarrow> corpusInv (AddDocuments c docs)"
  by (induction docs arbitrary: c) (auto simp: corpusInv_AddDocument)

lemma corpusInv_built: "corpusInv (AddDocuments (NewCorpus opts) docs)"
  by (simp add: corpusInv_AddDocuments corpusInv_NewCorpus)

lemma length_documents_AddDocuments:
  "length (documents (AddDocuments c docs)) = length (documents c) + length docs"
  by (induction docs arbitrary: c) (auto simp: AddDocument_def Let_def)


lemma documents_AddDocument:
  "documents (AddDocument c doc) = documents c @ [doc\<lparr>ID := int (length (documents c))\<rparr>]"
  by (simp add: AddDocument_def Let_def)

lemma documents_AddDocuments:
  "documents (AddDocuments c docs)
     = documents c @ map (\<lambda>(i, d). d\<lparr>ID := int (length (documents c) + i)\<rparr>) (enumerate 0 docs)"
proof (induction docs arbitrary: c)
  case Nil
  show ?case by simp
next
  case (Cons d ds)
  have "map (\<lambda>(i, d). d\<lparr>ID := int (length (documents c) + i)\<rparr>) (enumerate (Suc 0) ds)
      = map (\<lambda>(i, d). d\<lparr>ID := int (Suc (length (documents c)) + i)\<rparr>) (enumerate 0 ds)"
    by (simp add: enumerate_Suc_eq [of 0] split_def comp_def)
  then show ?case
    by (simp add: Cons.IH documents_AddDocument)
qed

section \<open>The loops against the specification's formulas\<close>

lemma termFound_ex:
  "list_all (\<lambda>(f, s). i < length (termFrequencies s)) scs \<Longrightarrow>
   termFound scs i t = list_ex (\<lambda>(f, s). rawTF s i t \<noteq> 0) scs"
  by (induction scs i t rule: termFound.induct) (auto simp: rawTF_def)

lemma countDocFreq_filter:
  "countDocFreq c t idxs acc = acc + length (filter (\<lambda>i. termFound (fieldScorers c) i t) idxs)"
  by (induction idxs arbitrary: acc) auto

lemma countDocFreq_spec:
  assumes "lengthsInv c"
  shows "countDocFreq c t [0 ..< length (documents c)] 0 = combinedDocFreq c t"
proof -
  have "termFound (fieldScorers c) i t = list_ex (\<lambda>(f, s). rawTF s i t \<noteq> 0) (fieldScorers c)"
    if "i < length (documents c)" for i
    using assms that by (intro termFound_ex) (auto simp: lengthsInv_def list_all_iff)
  then have "filter (\<lambda>i. termFound (fieldScorers c) i t) [0 ..< length (documents c)]
      = filter (\<lambda>i. list_ex (\<lambda>(f, s). rawTF s i t \<noteq> 0) (fieldScorers c)) [0 ..< length (documents c)]"
    by (intro filter_cong) auto
  then show ?thesis by (simp add: countDocFreq_filter combinedDocFreq_def)
qed

lemma sumWeightedTF_sum:
  "list_all (\<lambda>(f, s). d < length (termFrequencies s)) scs \<Longrightarrow>
   sumWeightedTF c d t scs acc
     = acc + (\<Sum>(f, s) \<leftarrow> scs. weightOf (fieldWeights c) f * real (rawTF s d t))"
  by (induction c d t scs acc rule: sumWeightedTF.induct) (auto simp: rawTF_def Let_def)

lemma sumWeightedTF_spec:
  assumes "lengthsInv c" "d < length (documents c)"
  shows "sumWeightedTF c d t (fieldScorers c) 0 = weightedTermFreq c d t"
  using assms by (simp add: sumWeightedTF_sum lengthsInv_def list_all_iff weightedTermFreq_def split_def)

lemma weighted_zero_if_absent:
  "\<not> list_ex (\<lambda>(f, s). rawTF s d t \<noteq> 0) scs \<Longrightarrow>
   (\<Sum>(f, s) \<leftarrow> scs. weightOf ws f * real (rawTF s d t)) = 0"
  by (induction scs) auto

lemma docFreq_zero_weighted_zero:
  assumes "d < length (documents c)" "combinedDocFreq c t = 0"
  shows "weightedTermFreq c d t = 0"
proof -
  have "d \<in> set [0 ..< length (documents c)]" using assms(1) by simp
  moreover have "filter (\<lambda>i. list_ex (\<lambda>(f, s). rawTF s i t \<noteq> 0) (fieldScorers c))
      [0 ..< length (documents c)] = []"
    using assms(2) by (simp add: combinedDocFreq_def)
  ultimately have "\<not> list_ex (\<lambda>(f, s). rawTF s d t \<noteq> 0) (fieldScorers c)"
    by (simp add: filter_empty_conv)
  then show ?thesis unfolding weightedTermFreq_def by (rule weighted_zero_if_absent)
qed

lemma termContribution_spec:
  assumes "lengthsInv c" "d < length (documents c)"
  shows "termContribution c d t = termScoreBM25F c d t"
proof (cases "combinedDocFreq c t = 0")
  case True
  then show ?thesis
    using assms docFreq_zero_weighted_zero [OF assms(2) True]
    by (simp add: termContribution_def termScoreBM25F_def countDocFreq_spec Let_def)
next
  case False
  then show ?thesis
    using assms
    by (simp add: termContribution_def termScoreBM25F_def countDocFreq_spec sumWeightedTF_spec
        Let_def clampedIdf_def combinationK_def max_def)
qed

lemma lengthsInv_built: "lengthsInv (AddDocuments (NewCorpus opts) docs)"
  using corpusInv_built [of opts docs]
  by (auto simp: corpusInv_def lengthsInv_def scorerInv_def list_all_iff)





section \<open>The BM25 parameters and the combined score\<close>

lemma addDocument_fparams: "addDocument (s\<lparr>fparams := x\<rparr>) toks = (addDocument s toks)\<lparr>fparams := x\<rparr>"
  by (simp add: addDocument_def Let_def)

lemma indexFields_override:
  "indexFields (overrideParams p fp q c) doc (map (\<lambda>(f, s). (f, s\<lparr>fparams := q f\<rparr>)) scs)
     = map (\<lambda>(f, s). (f, s\<lparr>fparams := q f\<rparr>)) (indexFields c doc scs)"
  by (induction c doc scs rule: indexFields.induct) (auto simp: overrideParams_def addDocument_fparams)

lemma AddDocument_override:
  "AddDocument (overrideParams p fp q c) doc = overrideParams p fp q (AddDocument c doc)"
  using indexFields_override [of p fp q c _ "fieldScorers c"]
  by (simp add: AddDocument_def Let_def overrideParams_def)

lemma AddDocuments_override:
  "AddDocuments (overrideParams p fp q c) docs = overrideParams p fp q (AddDocuments c docs)"
  by (induction docs arbitrary: c) (auto simp: AddDocument_override)

lemma applyOptions_append: "applyOptions (xs @ ys) c = applyOptions ys (applyOptions xs c)"
  by (induction xs arbitrary: c) auto

lemma NewCorpus_override:
  "NewCorpus (opts @ [WithBM25Params p, WithFieldParams (Some fp)])
     = overrideParams p (Some fp) (\<lambda>f. case fp f of None \<Rightarrow> p | Some x \<Rightarrow> x) (NewCorpus opts)"
  by (simp add: NewCorpus_def applyOptions_append buildFieldScorers_def overrideParams_def
      scorerParams_def newFieldBM25_def split_def comp_def cong: option.case_cong)

lemma termFound_override:
  "termFound (map (\<lambda>(f, s). (f, s\<lparr>fparams := q f\<rparr>)) scs) i t = termFound scs i t"
  by (induction scs i t rule: termFound.induct) auto

lemma countDocFreq_override:
  "countDocFreq (overrideParams p fp q c) t idxs acc = countDocFreq c t idxs acc"
  by (induction idxs arbitrary: acc) (auto simp: overrideParams_def termFound_override)

lemma sumWeightedTF_override:
  "sumWeightedTF (overrideParams p fp q c) d t (map (\<lambda>(f, s). (f, s\<lparr>fparams := q f\<rparr>)) scs) acc
     = sumWeightedTF c d t scs acc"
  by (induction c d t scs acc rule: sumWeightedTF.induct) (auto simp: overrideParams_def Let_def)

lemma termContribution_override:
  "termContribution (overrideParams p fp q c) d t = termContribution c d t"
proof -
  have a: "fieldScorers (overrideParams p fp q c) = map (\<lambda>(f, s). (f, s\<lparr>fparams := q f\<rparr>)) (fieldScorers c)"
    and b: "documents (overrideParams p fp q c) = documents c"
    by (simp_all add: overrideParams_def)
  show ?thesis
    unfolding termContribution_def a b countDocFreq_override sumWeightedTF_override ..
qed

lemma scoreWithTokens_override:
  "scoreWithTokens (overrideParams p fp q c) ts i = scoreWithTokens c ts i"
proof -
  have "documents (overrideParams p fp q c) = documents c" by (simp add: overrideParams_def)
  moreover have "termContribution (overrideParams p fp q c) d = termContribution c d" for d
    by (rule ext) (rule termContribution_override)
  ultimately show ?thesis
    by (simp add: scoreWithTokens_def scoreQueryTerms_sum)
qed

lemma Score_params_independent:
  "Score (AddDocuments (NewCorpus (opts @ [WithBM25Params p, WithFieldParams (Some fp)])) docs) query i
     = Score (AddDocuments (NewCorpus opts) docs) query i"
proof -
  have "tokenizer (overrideParams p' fp' q c) = tokenizer c" for p' fp' q c
    by (simp add: overrideParams_def)
  then show ?thesis
    by (simp add: NewCorpus_override AddDocuments_override Score_def scoreWithTokens_override)
qed

section \<open>The weight of a field and the combined score\<close>





























section \<open>The field parser\<close>

lemma initFields_apply:
  "initFields ws fieldMap f = (if f \<in> fst ` set ws then Some [] else fieldMap f)"
proof (induction ws arbitrary: fieldMap)
  case Nil
  show ?case by simp
next
  case (Cons p ws)
  obtain g w where p: "p = (g, w)" by (cases p)
  show ?case
    unfolding p using Cons.IH [of "fieldMap(g \<mapsto> [])"] by (auto simp: fun_upd_def)
qed

lemma joinFieldTexts_keeps:
  "fieldMap f \<noteq> None \<Longrightarrow> joinFieldTexts ft fieldMap f \<noteq> None"
  by (induction ft fieldMap rule: joinFieldTexts.induct) auto

lemma walker_no_error: "snd (fst (walker cur entering ft)) = None"
  by (simp add: walker_def Let_def split: NodeKind.splits)

lemma walker_no_stop: "fst (fst (walker cur entering ft)) \<noteq> WalkStop"
  by (simp add: walker_def Let_def split: NodeKind.splits)

lemma walk_no_error:
  "fst (walkHelper walker ups n hasNext ft) = (WalkContinue, None)"
  "fst (walkChildren walker ups ns ft) = (WalkContinue, None)"
proof (induction walker ups n hasNext ft and walker ups ns ft rule: walkHelper_walkChildren.induct)
  case (1 ups k children hasNext ft)
  show ?case
    using 1 by (simp add: Let_def walker_no_error walker_no_stop)
next
  case (2 ups ft)
  show ?case by simp
next
  case (3 ups child rest ft)
  show ?case
    using 3 by (simp add: Let_def)
qed

lemma astWalk_no_error: "fst (astWalk n walker ft) = None"
  by (simp add: astWalk_def Let_def walk_no_error)

section \<open>Sorting and the two search strategies\<close>

lemma mset_insertLeft: "mset (insertLeft ys x) = add_mset x (mset ys)"
  by (induction ys) auto

lemma set_insertLeft: "set (insertLeft ys x) = insert x (set ys)"
  by (induction ys) auto

lemma ascending_insertLeft:
  "sorted_wrt (\<lambda>a b. rScore a \<le> rScore b) ys \<Longrightarrow>
   sorted_wrt (\<lambda>a b. rScore a \<le> rScore b) (insertLeft ys x)"
  by (induction ys) (auto simp: set_insertLeft byScore_def)

lemma mset_insertionSort: "mset (insertionSort pre xs) = mset pre + mset xs"
  by (induction xs arbitrary: pre) (auto simp: mset_insertLeft)

lemma descending_insertionSort:
  "sorted_wrt (\<lambda>a b. rScore a \<le> rScore b) pre \<Longrightarrow> descending (insertionSort pre xs)"
proof (induction xs arbitrary: pre)
  case Nil
  then show ?case by (simp add: descending_def sorted_wrt_rev)
next
  case (Cons x xs)
  then show ?case by (simp add: ascending_insertLeft)
qed

lemma sortContract_descending: "sortContract srt \<Longrightarrow> descending (srt xs)"
  by (simp add: sortContract_def descending_def byScore_def not_less)

lemma sortContract_mset: "sortContract srt \<Longrightarrow> mset (srt xs) = mset xs"
  by (simp add: sortContract_def)

lemma sortContract_insertionSort: "sortContract (insertionSort [])"
  using descending_insertionSort [of "[]"]
  by (simp add: sortContract_def mset_insertionSort descending_def byScore_def not_less)

lemma scoreDocs_map_filter:
  "scoreDocs c q idxs = map (mkResult c q) (filter (\<lambda>i. scoreWithTokens c q (int i) > 0) idxs)"
  by (induction idxs) (auto simp: Let_def mkResult_def)

lemma scoreDocs_positive: "r \<in> set (scoreDocs c q idxs) \<Longrightarrow> rScore r > 0"
  by (auto simp: scoreDocs_map_filter mkResult_def)

lemma mset_scoreDocs: "mset idxs = mset idxs' \<Longrightarrow> mset (scoreDocs c q idxs) = mset (scoreDocs c q idxs')"
  by (simp add: scoreDocs_map_filter)

lemma set_applyLimit: "set (applyLimit limit rs) \<subseteq> set rs"
  by (auto simp: applyLimit_def dest: in_set_takeD)

lemma descending_applyLimit: "descending rs \<Longrightarrow> descending (applyLimit limit rs)"
  by (simp add: applyLimit_def descending_def sorted_wrt_take)

lemma length_applyLimit: "limit > 0 \<Longrightarrow> int (length (applyLimit limit rs)) \<le> limit"
  by (auto simp: applyLimit_def)






section \<open>The example corpus evaluated\<close>

lemma poem_length: "length (documents poemCorpus) = 3"
  by code_simp

lemma poem_tokenizer:
  "tokenizer poemCorpus ''waltzing waltzing'' = [''waltzing'', ''waltzing'']"
  "tokenizer poemCorpus ''waltzing'' = [''waltzing'']"
  "tokenizer poemCorpus ''a an'' = []"
  by code_simp+

lemma poem_docFreq: "countDocFreq poemCorpus ''waltzing'' [0 ..< 3] 0 = 1"
  by code_simp

lemma poem_weightedTF: "sumWeightedTF poemCorpus 0 ''waltzing'' (fieldScorers poemCorpus) 0 = 1"
  by code_simp

lemma poem_contribution: "termContribution poemCorpus 0 ''waltzing'' = ln (5 / 3)"
proof -
  have "(0::real) < ln (5 / 3)" by simp
  then show ?thesis
    by (simp add: termContribution_def poem_length poem_docFreq poem_weightedTF Let_def)
qed

lemma poem_score_single: "Score poemCorpus ''waltzing'' 0 = ln (5 / 3)"
  by (simp add: Score_def poem_tokenizer scoreWithTokens_def poem_length scoreQueryTerms_sum poem_contribution)

lemma poem_score_double: "Score poemCorpus ''waltzing waltzing'' 0 = 2 * ln (5 / 3)"
  by (simp add: Score_def poem_tokenizer scoreWithTokens_def poem_length scoreQueryTerms_sum poem_contribution)




lemma tie_length: "length (documents tieCorpus) = 5"
  by code_simp


lemma tie_tokenizer:
  "tokenizer tieCorpus ''waltzing'' = [''waltzing'']"
  "tokenizer tieCorpus ''a an'' = []"
  by code_simp+

lemma tie_docFreq: "countDocFreq tieCorpus ''waltzing'' [0 ..< 5] 0 = 2"
  by code_simp

lemma tie_weightedTF:
  "sumWeightedTF tieCorpus 0 ''waltzing'' (fieldScorers tieCorpus) 0 = 1"
  "sumWeightedTF tieCorpus (Suc 0) ''waltzing'' (fieldScorers tieCorpus) 0 = 0"
  "sumWeightedTF tieCorpus 2 ''waltzing'' (fieldScorers tieCorpus) 0 = 1"
  "sumWeightedTF tieCorpus 3 ''waltzing'' (fieldScorers tieCorpus) 0 = 0"
  "sumWeightedTF tieCorpus 4 ''waltzing'' (fieldScorers tieCorpus) 0 = 0"
  by code_simp+

lemma ln_7_5_pos: "(0::real) < ln (7 / 5)"
  by simp

lemma tie_contribution:
  "termContribution tieCorpus 0 ''waltzing'' = ln (7 / 5)"
  "termContribution tieCorpus (Suc 0) ''waltzing'' = 0"
  "termContribution tieCorpus 2 ''waltzing'' = ln (7 / 5)"
  "termContribution tieCorpus 3 ''waltzing'' = 0"
  "termContribution tieCorpus 4 ''waltzing'' = 0"
  using ln_7_5_pos
  by (simp_all add: termContribution_def tie_length tie_docFreq tie_weightedTF Let_def)

lemma tie_scores:
  "scoreWithTokens tieCorpus [''waltzing''] 0 = ln (7 / 5)"
  "scoreWithTokens tieCorpus [''waltzing''] 1 = 0"
  "scoreWithTokens tieCorpus [''waltzing''] 2 = ln (7 / 5)"
  "scoreWithTokens tieCorpus [''waltzing''] 3 = 0"
  "scoreWithTokens tieCorpus [''waltzing''] 4 = 0"
  by (simp_all add: scoreWithTokens_def tie_length scoreQueryTerms_sum tie_contribution)

lemma upt_5: "[0 ..< 5] = [0, Suc 0, 2, 3, 4]"
  by code_simp

lemma tie_scoreDocs_seq:
  "scoreDocs tieCorpus [''waltzing''] [0 ..< 5]
     = [mkResult tieCorpus [''waltzing''] 0, mkResult tieCorpus [''waltzing''] 2]"
  using ln_7_5_pos by (simp add: upt_5 scoreDocs_map_filter tie_scores)



lemma tie_rScore:
  "rScore (mkResult tieCorpus [''waltzing''] 0) = ln (7 / 5)"
  "rScore (mkResult tieCorpus [''waltzing''] 2) = ln (7 / 5)"
  by (simp_all add: mkResult_def tie_scores)

lemma tie_sorted_seq:
  "insertionSort [] [mkResult tieCorpus [''waltzing''] 0, mkResult tieCorpus [''waltzing''] 2]
     = [mkResult tieCorpus [''waltzing''] 0, mkResult tieCorpus [''waltzing''] 2]"
  by (simp add: byScore_def tie_rScore)


lemma tie_sequential:
  "searchSequential (insertionSort []) tieCorpus [''waltzing''] 1 = [mkResult tieCorpus [''waltzing''] 0]"
  unfolding searchSequential_def tie_length tie_scoreDocs_seq tie_sorted_seq
  by (simp add: applyLimit_def)



lemma headed_length: "length (documents headedCorpus) = 3"
  by code_simp

lemma headed_tokenizer: "tokenizer headedCorpus ''waltzing'' = [''waltzing'']"
  by code_simp

lemma headed_docFreq: "countDocFreq headedCorpus ''waltzing'' [0 ..< 3] 0 = 1"
  by code_simp

lemma headed_weightedTF: "sumWeightedTF headedCorpus 0 ''waltzing'' (fieldScorers headedCorpus) 0 = 7"
  by code_simp

lemma headed_rawTF:
  "map (\<lambda>(f, s). (f, rawTF s 0 ''waltzing'')) (fieldScorers headedCorpus)
     = [(FieldH1, 1), (FieldH2, 0), (FieldH3, 0), (FieldH4, 0), (FieldH5, 0), (FieldH6, 0),
        (FieldBold, 0), (FieldItalic, 0), (FieldCode, 0), (FieldBody, 2)]"
  by code_simp






lemma scenario_fields:
  "map (ParseDocument (\<lambda>text. scenarioTree) scenarioText) (map fst DefaultFieldWeights)
     = [Some ''Main Title'', Some [], Some [], Some [], Some [], Some [],
        Some ''bold'', Some ''italic'', Some ''code'',
        Some ''This is and text. Here is some and regular content.'']"
  by code_simp

lemma scenario_failing:
  "fst (failingWalk scenarioTree walker (initFieldTexts DefaultFieldWeights [])) = Some (WalkError ''walk failed'')"
  by (simp add: failingWalk_def)

section \<open>The claims\<close>

subsection \<open>C1: repeated query terms\<close>

text \<open>
  C1, as claimed: the combined score has one term score per distinct term of the tokenized
  query, so that repeating a term in the query does not change the score. The loop of
  \<open>scoreWithTokens\<close> runs over every element of the tokenized query. In the example
  corpus the query "waltzing waltzing" tokenizes to the term twice and scores document 0
  twice as high as the query "waltzing".
\<close>

theorem C1_counterexample:
  "tokenizer poemCorpus ''waltzing waltzing'' = [''waltzing'', ''waltzing''] \<and>
   tokenizer poemCorpus ''waltzing'' = [''waltzing''] \<and>
   Score poemCorpus ''waltzing waltzing'' 0 \<noteq> Score poemCorpus ''waltzing'' 0"
proof -
  have "(0::real) < ln (5 / 3)" by simp
  then show ?thesis by (simp add: poem_tokenizer poem_score_single poem_score_double)
qed

text \<open>
  C1, amended: the combined score is the sum, over the occurrences of the terms in the
  tokenized query, of the score of the one-term query; a term that occurs \<open>k\<close> times
  contributes \<open>k\<close> times its term score.
\<close>

theorem C1_score_sums_occurrences:
  "scoreWithTokens c queryTerms docIndex = (\<Sum>t \<leftarrow> queryTerms. scoreWithTokens c [t] docIndex) \<and>
   scoreWithTokens c (replicate k t) docIndex = real k * scoreWithTokens c [t] docIndex"
proof -
  have a: "scoreWithTokens c ts docIndex = (\<Sum>t \<leftarrow> ts. scoreWithTokens c [t] docIndex)" for ts
    by (induction ts) (auto simp: scoreWithTokens_def scoreQueryTerms_sum)
  have "(\<Sum>u \<leftarrow> replicate k t. scoreWithTokens c [u] docIndex) = real k * scoreWithTokens c [t] docIndex"
    by (induction k) (auto simp: algebra_simps)
  with a [of "replicate k t"] a [of queryTerms] show ?thesis by simp
qed

subsection \<open>C2: the two search strategies\<close>




subsection \<open>C3: the BM25F term score\<close>

text \<open>
  C3: in a corpus built by \<open>NewCorpus\<close> and \<open>AddDocument\<close>, for a valid document index and
  any term, the document frequency computed by the code is the number of documents in
  which some field has a nonzero raw term frequency (a document counts once); the
  weighted term frequency is the sum over the fields of weight times raw term frequency in
  the target document; the score of the term is 0 unless that sum is positive, and then
  \<open>idf * w * (K + 1) / (w + K)\<close> with the clamped idf and \<open>K = 1.2\<close>; the score of a query
  is the sum of these term scores; and the score is the same whatever global parameters
  and per-field overrides the corpus is configured with.
\<close>

theorem C3_bm25f_term_score:
  assumes "c = AddDocuments (NewCorpus opts) docs"
    and "0 \<le> docIndex" and "docIndex < int (length (documents c))"
  shows "countDocFreq c t [0 ..< length (documents c)] 0 = combinedDocFreq c t \<and>
         sumWeightedTF c (nat docIndex) t (fieldScorers c) 0 = weightedTermFreq c (nat docIndex) t \<and>
         scoreWithTokens c [t] docIndex = termScoreBM25F c (nat docIndex) t \<and>
         Score c query docIndex = (\<Sum>u \<leftarrow> tokenizer c query. termScoreBM25F c (nat docIndex) u) \<and>
         Score (AddDocuments (NewCorpus (opts @ [WithBM25Params p, WithFieldParams (Some fp)])) docs)
               query docIndex = Score c query docIndex"
proof -
  have inv: "lengthsInv c" unfolding assms(1) by (rule lengthsInv_built)
  have d: "nat docIndex < length (documents c)" using assms(2,3) by simp
  have 1: "countDocFreq c t [0 ..< length (documents c)] 0 = combinedDocFreq c t"
    using inv by (rule countDocFreq_spec)
  have 2: "sumWeightedTF c (nat docIndex) t (fieldScorers c) 0 = weightedTermFreq c (nat docIndex) t"
    using inv d by (rule sumWeightedTF_spec)
  have "termContribution c (nat docIndex) u = termScoreBM25F c (nat docIndex) u" for u
    using inv d by (rule termContribution_spec)
  then have tc: "termContribution c (nat docIndex) = termScoreBM25F c (nat docIndex)"
    by (rule ext)
  have 3: "scoreWithTokens c [t] docIndex = termScoreBM25F c (nat docIndex) t"
    using assms(2,3) by (simp add: scoreWithTokens_def scoreQueryTerms_sum tc)
  have 4: "Score c query docIndex = (\<Sum>u \<leftarrow> tokenizer c query. termScoreBM25F c (nat docIndex) u)"
    using assms(2,3) by (simp add: Score_def scoreWithTokens_def scoreQueryTerms_sum tc)
  have 5: "Score (AddDocuments (NewCorpus (opts @ [WithBM25Params p, WithFieldParams (Some fp)])) docs)
               query docIndex = Score c query docIndex"
    unfolding assms(1) by (rule Score_params_independent)
  from 1 2 3 4 5 show ?thesis by (intro conjI)
qed

text \<open>
  C3 at the corpus with a titled document: "waltzing" has the raw frequencies 1 in the
  title and 2 in the body of document 0, the document frequency 1, the weighted frequency
  \<open>5 * 1 + 1 * 2 = 7\<close>, and the same score under other BM25 parameters.
\<close>

theorem C3_bm25f_term_score_witness:
  "headedCorpus = AddDocuments (NewCorpus []) headedDocs \<and>
   (0::int) \<le> 0 \<and> (0::int) < int (length (documents headedCorpus)) \<and>
   map (\<lambda>(f, s). (f, rawTF s 0 ''waltzing'')) (fieldScorers headedCorpus)
     = [(FieldH1, 1), (FieldH2, 0), (FieldH3, 0), (FieldH4, 0), (FieldH5, 0), (FieldH6, 0),
        (FieldBold, 0), (FieldItalic, 0), (FieldCode, 0), (FieldBody, 2)] \<and>
   combinedDocFreq headedCorpus ''waltzing'' = 1 \<and>
   weightedTermFreq headedCorpus 0 ''waltzing'' = 7 \<and>
   termScoreBM25F headedCorpus 0 ''waltzing'' = ln (5 / 3) * (7 * (12 / 10 + 1) / (7 + 12 / 10)) \<and>
   Score headedCorpus ''waltzing'' 0 = ln (5 / 3) * (7 * (12 / 10 + 1) / (7 + 12 / 10)) \<and>
   Score (AddDocuments (NewCorpus ([] @ [WithBM25Params \<lparr>K1 = 2, B = 0\<rparr>,
            WithFieldParams (Some [FieldBody \<mapsto> \<lparr>K1 = 1 / 2, B = 1\<rparr>])])) headedDocs) ''waltzing'' 0
     = ln (5 / 3) * (7 * (12 / 10 + 1) / (7 + 12 / 10))"
proof -
  have l: "(0::int) < int (length (documents headedCorpus))" by (simp add: headed_length)
  note t = C3_bm25f_term_score [OF headedCorpus_def _ l, of "''waltzing''" "''waltzing''"
      "\<lparr>K1 = 2, B = 0\<rparr>" "[FieldBody \<mapsto> \<lparr>K1 = 1 / 2, B = 1\<rparr>]", simplified]
  have df: "combinedDocFreq headedCorpus ''waltzing'' = 1"
    using t headed_docFreq by (simp add: headed_length)
  have wtf: "weightedTermFreq headedCorpus 0 ''waltzing'' = 7"
    using t headed_weightedTF by simp
  have "(0::real) < ln (5 / 3)" by simp
  then have ts: "termScoreBM25F headedCorpus 0 ''waltzing'' = ln (5 / 3) * (7 * (12 / 10 + 1) / (7 + 12 / 10))"
    by (simp add: termScoreBM25F_def df wtf headed_length clampedIdf_def combinationK_def)
  have sc: "Score headedCorpus ''waltzing'' 0 = termScoreBM25F headedCorpus 0 ''waltzing''"
    using t by (simp add: headed_tokenizer)
  have ov: "Score (AddDocuments (NewCorpus ([] @ [WithBM25Params \<lparr>K1 = 2, B = 0\<rparr>,
            WithFieldParams (Some [FieldBody \<mapsto> \<lparr>K1 = 1 / 2, B = 1\<rparr>])])) headedDocs) ''waltzing'' 0
      = Score headedCorpus ''waltzing'' 0"
    using t by (simp add: headedCorpus_def)
  from headedCorpus_def l headed_rawTF df wtf ts sc ov show ?thesis by simp
qed

subsection \<open>C4: raising the weight of a field\<close>





subsection \<open>C5: empty query and invalid index\<close>

text \<open>
  C5: \<open>Score\<close> is 0 when the query tokenizes to no term or the document index lies outside
  \<open>0 ..< len(documents)\<close>. \<open>Score\<close> only reads the corpus: it is a function of the
  corpus and returns no new one, so the corpus is the same after the call.
\<close>

theorem C5_score_zero:
  "tokenizer c query = [] \<or> docIndex < 0 \<or> int (length (documents c)) \<le> docIndex
   \<Longrightarrow> Score c query docIndex = 0"
  by (auto simp: Score_def scoreWithTokens_def)

text \<open>
  C5 at the example corpus: a query of short words that tokenizes to nothing, the index 3
  just past the last document, and a negative index.
\<close>

theorem C5_score_zero_witness:
  "tokenizer poemCorpus ''a an'' = [] \<and> Score poemCorpus ''a an'' 0 = 0 \<and>
   int (length (documents poemCorpus)) \<le> 3 \<and> Score poemCorpus ''waltzing'' 3 = 0 \<and>
   Score poemCorpus ''waltzing'' (- 1) = 0"
  using C5_score_zero [of poemCorpus "''a an''" 0] C5_score_zero [of poemCorpus "''waltzing''" 3]
    C5_score_zero [of poemCorpus "''waltzing''" "- 1"]
  by (simp add: poem_tokenizer poem_length)


subsection \<open>C6: scores are never negative\<close>



subsection \<open>C7: the result list of a search\<close>

text \<open>
  C7: with a sort that honours the contract of \<open>sort.Slice\<close>, \<open>Search\<close> returns the empty
  list when the query tokenizes to nothing; every result has a strictly positive score;
  the results are in descending order of score; a positive limit bounds the length of the
  list; and the list is the truncation of a list that holds exactly the documents with a
  positive score, so every document is scored before the truncation.
\<close>

theorem C7_search_results:
  assumes "sortContract srt"
  shows "(tokenizer c query = [] \<longrightarrow> Search srt arrival c query limit = []) \<and>
         (\<forall>r \<in> set (Search srt arrival c query limit). 0 < rScore r) \<and>
         descending (Search srt arrival c query limit) \<and>
         (0 < limit \<longrightarrow> int (length (Search srt arrival c query limit)) \<le> limit) \<and>
         (\<exists>full. Search srt arrival c query limit = applyLimit limit full \<and>
            (tokenizer c query \<noteq> [] \<and> validArrival c arrival \<longrightarrow>
               mset full = mset (map (mkResult c (tokenizer c query))
                  (filter (\<lambda>i. 0 < scoreWithTokens c (tokenizer c query) (int i))
                     [0 ..< length (documents c)]))))"
proof -
  let ?q = "tokenizer c query"
  let ?full = "if ?q = [] then []
               else if length (documents c) < 100 then srt (scoreDocs c ?q [0 ..< length (documents c)])
               else srt (scoreDocs c ?q arrival)"
  have S: "Search srt arrival c query limit = applyLimit limit ?full"
    by (simp add: Search_def searchSequential_def searchParallel_def applyLimit_def Let_def)
  have pos: "\<forall>r \<in> set ?full. 0 < rScore r"
  proof -
    have "set (srt xs) = set xs" for xs
      using sortContract_mset [OF assms, of xs] by (rule mset_eq_setD)
    then show ?thesis using scoreDocs_positive by auto
  qed
  have desc: "descending ?full"
    using sortContract_descending [OF assms] by (simp add: descending_def)
  have full: "mset ?full = mset (map (mkResult c ?q)
        (filter (\<lambda>i. 0 < scoreWithTokens c ?q (int i)) [0 ..< length (documents c)]))"
    if "?q \<noteq> []" "validArrival c arrival"
    using that sortContract_mset [OF assms]
      mset_scoreDocs [of arrival "[0 ..< length (documents c)]" c ?q]
    by (simp add: validArrival_def scoreDocs_map_filter)
  have 1: "tokenizer c query = [] \<longrightarrow> Search srt arrival c query limit = []"
    by (simp add: Search_def)
  have 2: "\<forall>r \<in> set (Search srt arrival c query limit). 0 < rScore r"
    unfolding S using pos set_applyLimit [of limit ?full] by (meson subsetD)
  have 3: "descending (Search srt arrival c query limit)"
    unfolding S using desc by (rule descending_applyLimit)
  have 4: "0 < limit \<longrightarrow> int (length (Search srt arrival c query limit)) \<le> limit"
    unfolding S using length_applyLimit by blast
  have 5: "\<exists>full. Search srt arrival c query limit = applyLimit limit full \<and>
            (tokenizer c query \<noteq> [] \<and> validArrival c arrival \<longrightarrow>
               mset full = mset (map (mkResult c (tokenizer c query))
                  (filter (\<lambda>i. 0 < scoreWithTokens c (tokenizer c query) (int i))
                     [0 ..< length (documents c)])))"
    using S full by blast
  from 1 2 3 4 5 show ?thesis by (intro conjI)
qed


text \<open>
  C7 at the corpus of five documents, with the insertion sort and the limit 1: a query of
  short words returns nothing, and "waltzing" returns one result of positive score.
\<close>

theorem C7_search_results_witness:
  "sortContract (insertionSort []) \<and>
   tokenizer tieCorpus ''a an'' = [] \<and>
   Search (insertionSort []) [2, 0, 1, 3, 4] tieCorpus ''a an'' 1 = [] \<and>
   Search (insertionSort []) [2, 0, 1, 3, 4] tieCorpus ''waltzing'' 1 = [mkResult tieCorpus [''waltzing''] 0] \<and>
   list_all (\<lambda>r. 0 < rScore r) (Search (insertionSort []) [2, 0, 1, 3, 4] tieCorpus ''waltzing'' 1) \<and>
   descending (Search (insertionSort []) [2, 0, 1, 3, 4] tieCorpus ''waltzing'' 1) \<and>
   int (length (Search (insertionSort []) [2, 0, 1, 3, 4] tieCorpus ''waltzing'' 1)) \<le> 1"
proof -
  have s: "Search (insertionSort []) [2, 0, 1, 3, 4] tieCorpus ''waltzing'' 1 = [mkResult tieCorpus [''waltzing''] 0]"
    by (simp add: Search_def tie_tokenizer tie_length tie_sequential)
  note a = C7_search_results [OF sortContract_insertionSort, of tieCorpus "''a an''" "[2, 0, 1, 3, 4]" 1]
  note b = C7_search_results [OF sortContract_insertionSort, of tieCorpus "''waltzing''" "[2, 0, 1, 3, 4]" 1]
  have 1: "Search (insertionSort []) [2, 0, 1, 3, 4] tieCorpus ''a an'' 1 = []"
    using a tie_tokenizer(2) by blast
  have 2: "list_all (\<lambda>r. 0 < rScore r) (Search (insertionSort []) [2, 0, 1, 3, 4] tieCorpus ''waltzing'' 1)"
    using b unfolding list_all_iff by blast
  have 3: "descending (Search (insertionSort []) [2, 0, 1, 3, 4] tieCorpus ''waltzing'' 1)"
    using b by blast
  have 4: "int (length (Search (insertionSort []) [2, 0, 1, 3, 4] tieCorpus ''waltzing'' 1)) \<le> 1"
    using b by simp
  from sortContract_insertionSort tie_tokenizer(2) 1 s 2 3 4 show ?thesis by (intro conjI)
qed

subsection \<open>C8: invariants of the index\<close>

text \<open>
  C8: after any sequence of \<open>AddDocument\<close> calls on a new corpus, the weights and the
  scorers have the same fields, every scorer holds one term-frequency table and one length
  per document, and the stored average length of each field is the arithmetic mean of its
  recorded lengths.
\<close>

theorem C8_index_invariants:
  assumes "c = AddDocuments (NewCorpus opts) docs"
  shows "set (map fst (fieldWeights c)) = set (map fst (fieldScorers c)) \<and>
         length (documents c) = length docs \<and>
         (\<forall>(f, s) \<in> set (fieldScorers c).
            length (termFrequencies s) = length (documents c) \<and>
            length (docLengths s) = length (documents c) \<and>
            (docs \<noteq> [] \<longrightarrow>
               avgDocLength s = real (sum_list (docLengths s)) / real (length (docLengths s))))"
proof -
  have inv: "corpusInv c" unfolding assms by (rule corpusInv_built)
  have len: "length (documents c) = length docs"
    unfolding assms by (simp add: length_documents_AddDocuments documents_NewCorpus)
  have keys: "set (map fst (fieldWeights c)) = set (map fst (fieldScorers c))"
    using inv by (simp add: corpusInv_def)
  have "length (termFrequencies s) = length (documents c) \<and>
        length (docLengths s) = length (documents c) \<and>
        (docs \<noteq> [] \<longrightarrow>
           avgDocLength s = real (sum_list (docLengths s)) / real (length (docLengths s)))"
    if "(f, s) \<in> set (fieldScorers c)" for f s
  proof -
    have "scorerInv (length (documents c)) s"
      using inv that by (auto simp: corpusInv_def list_all_iff)
    then show ?thesis using len by (auto simp: scorerInv_def)
  qed
  with keys len show ?thesis by auto
qed

text \<open>
  C8 at the example corpus of three documents; the body field has the lengths 7, 6 and 5
  and the average 6.
\<close>

theorem C8_index_invariants_witness:
  "poemCorpus = AddDocuments (NewCorpus []) poemDocs \<and>
   set (map fst (fieldWeights poemCorpus)) = set (map fst (fieldScorers poemCorpus)) \<and>
   length (documents poemCorpus) = 3 \<and>
   list_all (\<lambda>(f, s). length (termFrequencies s) = 3 \<and> length (docLengths s) = 3 \<and>
                avgDocLength s = real (sum_list (docLengths s)) / 3) (fieldScorers poemCorpus) \<and>
   docLengths (snd (fieldScorers poemCorpus ! 9)) = [7, 6, 5] \<and>
   avgDocLength (snd (fieldScorers poemCorpus ! 9)) = 6"
proof -
  have d: "docLengths (snd (fieldScorers poemCorpus ! 9)) = [7, 6, 5]" by code_simp
  have m: "(fieldScorers poemCorpus ! 9) \<in> set (fieldScorers poemCorpus)"
    by (rule nth_mem) code_simp
  have l: "length poemDocs = 3" "poemDocs \<noteq> []" by (simp_all add: poemDocs_def)
  note t = C8_index_invariants [of poemCorpus "[]" poemDocs, OF poemCorpus_def]
  from t have "avgDocLength (snd (fieldScorers poemCorpus ! 9)) = 6"
    using m l d by (auto simp: split_def)
  with t l d show ?thesis
    by (auto simp: poemCorpus_def list_all_iff)
qed

subsection \<open>C9: the field parser\<close>

text \<open>
  C9: whatever tree the markdown parser builds and whatever the tree walk of the library
  does and returns, \<open>ParseDocument\<close> returns a map in which every field of the default
  weights is a key with a string value; when the walk reports an error, the map holds the
  whole input under the body field and the empty string under every other field. The
  result type has no error part, so nothing is raised to the caller. With the walk of the
  library and the walker of the source, no error is ever reported.
\<close>

theorem C9_parse_document:
  "(\<forall>f \<in> fst ` set DefaultFieldWeights. \<exists>text. ParseDocumentWith parse walk content f = Some text) \<and>
   (\<forall>err. fst (walk (parse content) walker (initFieldTexts DefaultFieldWeights [])) = Some err \<longrightarrow>
      ParseDocumentWith parse walk content
        = (\<lambda>f. if f = FieldBody then Some content
                else if f \<in> fst ` set DefaultFieldWeights then Some [] else None)) \<and>
   fst (astWalk (parse content) walker ft) = None \<and>
   (\<forall>f \<in> fst ` set DefaultFieldWeights. \<exists>text. ParseDocument parse content f = Some text)"
proof -
  have keys: "\<exists>text. ParseDocumentWith parse w content f = Some text"
    if "f \<in> fst ` set DefaultFieldWeights" for f w
  proof -
    have "initFields DefaultFieldWeights Map.empty f \<noteq> None"
      using that by (simp add: initFields_apply)
    then have "((initFields DefaultFieldWeights Map.empty)(FieldBody \<mapsto> content)) f \<noteq> None"
      and "joinFieldTexts ft' (initFields DefaultFieldWeights Map.empty) f \<noteq> None" for ft'
      by (simp_all add: joinFieldTexts_keeps)
    then have "ParseDocumentWith parse w content f \<noteq> None"
      unfolding ParseDocumentWith_def Let_def by (simp split: option.splits)
    then show ?thesis by auto
  qed
  have fallback: "ParseDocumentWith parse walk content
        = (\<lambda>f. if f = FieldBody then Some content
                else if f \<in> fst ` set DefaultFieldWeights then Some [] else None)"
    if "fst (walk (parse content) walker (initFieldTexts DefaultFieldWeights [])) = Some err" for err
    using that by (auto simp: ParseDocumentWith_def Let_def initFields_apply fun_eq_iff)
  from keys fallback show ?thesis
    by (simp add: astWalk_no_error ParseDocument_def)
qed

text \<open>
  C9 at the scenario of the specification: the fields that the walk of the library
  collects, and the fallback under a walk that reports an error.
\<close>

theorem C9_parse_document_witness:
  "FieldItalic \<in> fst ` set DefaultFieldWeights \<and>
   (\<exists>text. ParseDocument (\<lambda>text. scenarioTree) scenarioText FieldItalic = Some text) \<and>
   map (ParseDocument (\<lambda>text. scenarioTree) scenarioText) (map fst DefaultFieldWeights)
     = [Some ''Main Title'', Some [], Some [], Some [], Some [], Some [],
        Some ''bold'', Some ''italic'', Some ''code'',
        Some ''This is and text. Here is some and regular content.''] \<and>
   fst (failingWalk scenarioTree walker (initFieldTexts DefaultFieldWeights [])) = Some (WalkError ''walk failed'') \<and>
   ParseDocumentWith (\<lambda>text. scenarioTree) failingWalk scenarioText FieldBody = Some scenarioText \<and>
   ParseDocumentWith (\<lambda>text. scenarioTree) failingWalk scenarioText FieldH1 = Some []"
proof -
  have k: "FieldItalic \<in> fst ` set DefaultFieldWeights" "FieldH1 \<in> fst ` set DefaultFieldWeights"
    "FieldH1 \<noteq> FieldBody"
    by (simp_all add: DefaultFieldWeights_def Field_defs)
  note a = C9_parse_document [of "\<lambda>text. scenarioTree" astWalk scenarioText "[]"]
  note b = C9_parse_document [of "\<lambda>text. scenarioTree" failingWalk scenarioText "[]"]
  from a k have 1: "\<exists>text. ParseDocument (\<lambda>text. scenarioTree) scenarioText FieldItalic = Some text"
    by blast
  from b scenario_failing have 2: "ParseDocumentWith (\<lambda>text. scenarioTree) failingWalk scenarioText
        = (\<lambda>f. if f = FieldBody then Some scenarioText
                else if f \<in> fst ` set DefaultFieldWeights then Some [] else None)"
    by blast
  have 3: "ParseDocumentWith (\<lambda>text. scenarioTree) failingWalk scenarioText FieldBody = Some scenarioText"
    unfolding 2 by simp
  have 4: "ParseDocumentWith (\<lambda>text. scenarioTree) failingWalk scenarioText FieldH1 = Some []"
    unfolding 2 using k by simp
  from k(1) 1 scenario_fields scenario_failing 3 4 show ?thesis by (intro conjI)
qed

subsection \<open>C10: document identifiers\<close>

text \<open>
  C10: \<open>AddDocument\<close> stores the document with its identifier set to the number of
  documents stored before, whatever identifier the caller gave, and leaves the documents
  stored before as they are; after any sequence of calls on a new corpus the document at
  position \<open>i\<close> is the \<open>i\<close>-th document given, with the identifier \<open>i\<close>.
\<close>

theorem C10_document_ids:
  "ID (last (documents (AddDocument c doc))) = int (length (documents c)) \<and>
   butlast (documents (AddDocument c doc)) = documents c \<and>
   last (documents (AddDocument c doc)) = doc\<lparr>ID := int (length (documents c))\<rparr> \<and>
   (\<forall>i < length docs.
      documents (AddDocuments (NewCorpus opts) docs) ! i = (docs ! i)\<lparr>ID := int i\<rparr>) \<and>
   length (documents (AddDocuments (NewCorpus opts) docs)) = length docs"
  by (simp add: documents_AddDocument documents_AddDocuments documents_NewCorpus nth_enumerate_eq)

text \<open>
  C10 at the example corpus, whose documents arrive with the identifier 42.
\<close>

theorem C10_document_ids_witness:
  "ID (poemDocs ! 2) = 42 \<and>
   documents (AddDocuments (NewCorpus []) poemDocs) ! 2 = (poemDocs ! 2)\<lparr>ID := 2\<rparr> \<and>
   ID (documents (AddDocuments (NewCorpus []) poemDocs) ! 2) = 2 \<and>
   length (documents (AddDocuments (NewCorpus []) poemDocs)) = 3 \<and>
   ID (last (documents (AddDocument poemCorpus (bodyDoc ''and arbitrary blackness gallops in'')))) = 3"
proof -
  have l: "length poemDocs = 3" by (simp add: poemDocs_def)
  have "ID (poemDocs ! 2) = 42" by (simp add: poemDocs_def bodyDoc_def)
  moreover have "documents (AddDocuments (NewCorpus []) poemDocs) ! 2 = (poemDocs ! 2)\<lparr>ID := 2\<rparr>"
    using C10_document_ids [of poemCorpus "bodyDoc ''x''" poemDocs "[]"] l by simp
  moreover have "ID (last (documents (AddDocument poemCorpus (bodyDoc ''and arbitrary blackness gallops in'')))) = 3"
    using C10_document_ids [of poemCorpus "bodyDoc ''and arbitrary blackness gallops in''" poemDocs "[]"]
    by (simp add: poem_length)
  ultimately show ?thesis
    using C10_document_ids [of poemCorpus "bodyDoc ''x''" poemDocs "[]"] l by simp
qed



end
